theory Spec2Isabelle
  imports Complex_Main
begin

section \<open>The falling-tiles game of \<^verbatim>\<open>src/game.js\<close>\<close>

text \<open>
  The module keeps its game state in top-level \<^verbatim>\<open>let\<close> variables and mutates them
  from its event handlers. Here the variables are the fields of one record and a handler
  is a function from state to state. Modelled are \<^verbatim>\<open>init\<close>'s call of
  \<^verbatim>\<open>startGame\<close>, the animation-frame callback \<^verbatim>\<open>gameLoop\<close>, the canvas click
  handler, the \<^verbatim>\<open>keydown\<close> handler and the restart button handler. The handlers of
  the difficulty selector, of the mute button and of window resizing are not: the field
  size and the difficulty name are fields of the state that no modelled handler but
  \<open>restart\<close> changes.

  JavaScript numbers are IEEE doubles; they are modelled as \<^typ>\<open>real\<close>, so rounding,
  \<^verbatim>\<open>NaN\<close> and the infinities are not represented (the one \<^verbatim>\<open>-Infinity\<close> of the
  source, the start value of \<^verbatim>\<open>bestY\<close>, is the \<^term>\<open>None\<close> of an option). The counters
  \<^verbatim>\<open>score\<close> and \<^verbatim>\<open>lives\<close> only ever hold integers and are \<^typ>\<open>int\<close>.

  Each \<^verbatim>\<open>Math.random()\<close> that decides a tile's geometry or speed is an explicit
  argument. The colour and the id of a tile are random, are never read again by the game
  logic, and are left out. Canvas drawing and the DOM writes of \<^verbatim>\<open>updateUI\<close> are left
  out as well; the calls that leave the module towards the audio, the game-over overlay
  and the frame scheduler are recorded, in order, in the field \<open>signals\<close>.
\<close>

subsection \<open>Data\<close>

record tile =
  x :: real
  y :: real
  w :: real
  h :: real
  speed :: real

datatype signal = HitSound | MissSound | GameOver int | RequestFrame

record settings =
  s_spawnInterval :: real
  s_tileSpeed :: real
  s_lives :: int
  minMult :: real
  maxMult :: real

record state =
  tiles :: "tile list"
  lastSpawn :: real
  spawnInterval :: real
  tileSpeed :: real
  score :: int
  lives :: int
  running :: bool
  lastTime :: real
  difficulty :: string
  flashTime :: real
  width :: real
  height :: real
  signals :: "signal list"

text \<open>The four draws of \<^verbatim>\<open>Math.random()\<close> in \<^verbatim>\<open>spawnTile\<close>, in source order.\<close>

record rnd =
  r_w :: real
  r_h :: real
  r_x :: real
  r_m :: real

definition rnd_ok :: "rnd \<Rightarrow> bool" where
  "rnd_ok r \<longleftrightarrow> 0 \<le> r_w r \<and> r_w r < 1 \<and> 0 \<le> r_h r \<and> r_h r < 1
     \<and> 0 \<le> r_x r \<and> r_x r < 1 \<and> 0 \<le> r_m r \<and> r_m r < 1"

record key_event =
  key :: string
  code :: string

subsection \<open>Difficulty settings\<close>

definition easy :: settings where
  "easy = \<lparr>s_spawnInterval = 1300, s_tileSpeed = 70, s_lives = 5,
            minMult = 85 / 100, maxMult = 115 / 100\<rparr>"

definition normal :: settings where
  "normal = \<lparr>s_spawnInterval = 900, s_tileSpeed = 110, s_lives = 3,
              minMult = 95 / 100, maxMult = 145 / 100\<rparr>"

definition hard :: settings where
  "hard = \<lparr>s_spawnInterval = 650, s_tileSpeed = 160, s_lives = 2,
            minMult = 105 / 100, maxMult = 19 / 10\<rparr>"

text \<open>
  \<^verbatim>\<open>difficultySettings[mode] || difficultySettings.normal\<close>, for the names a
  selector can hold: a name other than \<^verbatim>\<open>easy\<close> and \<^verbatim>\<open>hard\<close> gives the normal
  profile.
\<close>

definition difficultySettings :: "string \<Rightarrow> settings" where
  "difficultySettings mode =
     (if mode = ''easy'' then easy
      else if mode = ''hard'' then hard
      else normal)"

definition applyDifficulty :: "string \<Rightarrow> bool \<Rightarrow> state \<Rightarrow> state" where
  "applyDifficulty mode resetCurrent s =
     (let d = difficultySettings mode;
          s1 = s\<lparr>spawnInterval := s_spawnInterval d, tileSpeed := s_tileSpeed d\<rparr>
      in if resetCurrent then s1\<lparr>lives := s_lives d\<rparr> else s1)"

text \<open>The module-level initial values (lines 150 and 164--182).\<close>

definition initial :: state where
  "initial = \<lparr>tiles = [], lastSpawn = 0, spawnInterval = 900, tileSpeed = 100,
               score = 0, lives = 3, running = False, lastTime = 0,
               difficulty = ''normal'', flashTime = 0, width = 800, height = 600,
               signals = []\<rparr>"

definition hitZoneHeight :: real where
  "hitZoneHeight = 90"

subsection \<open>Tiles\<close>

text \<open>The constructor places a new tile above the field: \<^verbatim>\<open>this.y = -h - 10\<close>.\<close>

definition Tile :: "real \<Rightarrow> real \<Rightarrow> real \<Rightarrow> real \<Rightarrow> tile" where
  "Tile x0 w0 h0 speed0 = \<lparr>x = x0, y = - h0 - 10, w = w0, h = h0, speed = speed0\<rparr>"

definition tile_update :: "tile \<Rightarrow> real \<Rightarrow> tile" where
  "tile_update t dt = t\<lparr>y := y t + speed t * dt\<rparr>"

definition isPointInside :: "tile \<Rightarrow> real \<Rightarrow> real \<Rightarrow> bool" where
  "isPointInside t px py \<longleftrightarrow>
     px \<ge> x t \<and> px \<le> x t + w t \<and> py \<ge> y t \<and> py \<le> y t + h t"

text \<open>\<^verbatim>\<open>Math.round\<close> rounds halves upwards.\<close>

definition js_round :: "real \<Rightarrow> real" where
  "js_round v = of_int \<lfloor>v + 1 / 2\<rfloor>"

definition newTile :: "state \<Rightarrow> rnd \<Rightarrow> tile" where
  "newTile s r =
     (let margin = 16;
          w0 = max 40 (min 100 (width s * (8 / 100 + r_w r * (7 / 100))));
          h0 = max 24 (js_round (w0 * (1 / 2 + r_h r * (6 / 10))));
          x0 = margin + r_x r * (width s - w0 - margin * 2);
          d = difficultySettings (difficulty s);
          mult = minMult d + r_m r * (maxMult d - minMult d)
      in Tile x0 w0 h0 (tileSpeed s * mult))"

definition spawnTile :: "rnd \<Rightarrow> state \<Rightarrow> state" where
  "spawnTile r s = s\<lparr>tiles := tiles s @ [newTile s r]\<rparr>"

text \<open>\<^verbatim>\<open>xs.splice(i, 1)\<close> for an index within the array.\<close>

definition splice1 :: "nat \<Rightarrow> 'a list \<Rightarrow> 'a list" where
  "splice1 i xs = take i xs @ drop (Suc i) xs"

subsection \<open>End of a run, miss penalty\<close>

definition endGame :: "state \<Rightarrow> state" where
  "endGame s = s\<lparr>running := False, signals := signals s @ [GameOver (score s)]\<rparr>"

definition penalizeMiss :: "state \<Rightarrow> state" where
  "penalizeMiss s =
     (let s1 = s\<lparr>lives := lives s - 1, flashTime := 22 / 100,
                 signals := signals s @ [MissSound]\<rparr>;
          s2 = s1\<lparr>tileSpeed := tileSpeed s1 * (106 / 100)\<rparr>;
          s3 = (if spawnInterval s2 > 280
                then s2\<lparr>spawnInterval := spawnInterval s2 * (92 / 100)\<rparr> else s2)
      in if lives s3 \<le> 0 then endGame s3 else s3)"

subsection \<open>The frame update\<close>

text \<open>Lines 253--257: the spawn accumulator and the one possible spawn.\<close>

definition spawnStep :: "real \<Rightarrow> rnd \<Rightarrow> state \<Rightarrow> state" where
  "spawnStep dt r s =
     (let s1 = s\<lparr>lastSpawn := lastSpawn s + dt * 1000\<rparr>
      in if lastSpawn s1 > spawnInterval s1
         then spawnTile r (s1\<lparr>lastSpawn := 0\<rparr>) else s1)"

text \<open>
  One pass of the body of the loop of lines 260--275 at index \<open>i\<close>: the tile is moved in
  place, and when its top edge is below the field it is spliced out and costs a life.
\<close>

definition updateTileAt :: "nat \<Rightarrow> real \<Rightarrow> state \<Rightarrow> state" where
  "updateTileAt i dt s =
     (let t = tile_update (tiles s ! i) dt;
          s1 = s\<lparr>tiles := (tiles s)[i := t]\<rparr>
      in if y t > height s1
         then (let s2 = s1\<lparr>tiles := splice1 i (tiles s1), lives := lives s1 - 1,
                           signals := signals s1 @ [MissSound]\<rparr>
               in if lives s2 \<le> 0 then endGame s2 else s2)
         else s1)"

text \<open>
  The loop \<^verbatim>\<open>for (let i = tiles.length - 1; i >= 0; i--)\<close>: \<open>updateLoop n\<close> runs the
  body at the indices \<open>n - 1\<close> down to \<open>0\<close>.
\<close>

fun updateLoop :: "nat \<Rightarrow> real \<Rightarrow> state \<Rightarrow> state" where
  "updateLoop 0 dt s = s"
| "updateLoop (Suc i) dt s = updateLoop i dt (updateTileAt i dt s)"

definition update :: "real \<Rightarrow> rnd \<Rightarrow> state \<Rightarrow> state" where
  "update dt r s =
     (let s1 = spawnStep dt r s in updateLoop (length (tiles s1)) dt s1)"

text \<open>
  \<^verbatim>\<open>gameLoop(ts)\<close>. \<^verbatim>\<open>!lastTime\<close> holds exactly when \<^verbatim>\<open>lastTime\<close> is zero.
  \<open>frameDt\<close> is the \<^verbatim>\<open>dt\<close> of lines 321--322.
\<close>

definition frameDt :: "state \<Rightarrow> real \<Rightarrow> real" where
  "frameDt s ts = (ts - (if lastTime s = 0 then ts else lastTime s)) / 1000"

definition gameLoop :: "real \<Rightarrow> rnd \<Rightarrow> state \<Rightarrow> state" where
  "gameLoop ts r s =
     (if \<not> running s then s
      else let dt = frameDt s ts;
               s1 = update dt r (s\<lparr>lastTime := ts\<rparr>);
               s2 = (if flashTime s1 > 0
                     then s1\<lparr>flashTime := max 0 (flashTime s1 - dt)\<rparr> else s1)
           in s2\<lparr>signals := signals s2 @ [RequestFrame]\<rparr>)"

subsection \<open>Starting and restarting\<close>

definition startGame :: "state \<Rightarrow> state" where
  "startGame s =
     (let s1 = applyDifficulty (difficulty s) True (s\<lparr>tiles := [], score := 0\<rparr>)
      in s1\<lparr>lastSpawn := 0, lastTime := 0, running := True,
            signals := signals s1 @ [RequestFrame]\<rparr>)"

text \<open>
  The restart button handler; \<open>chosen\<close> is the value of the overlay's difficulty
  selector, the empty string when there is none.
\<close>

definition restart :: "string \<Rightarrow> state \<Rightarrow> state" where
  "restart chosen s =
     (let c = (if chosen \<noteq> [] then chosen else difficulty s);
          s1 = applyDifficulty c True (s\<lparr>difficulty := c\<rparr>)
      in startGame s1)"

subsection \<open>Pointer input\<close>

text \<open>
  The scan \<^verbatim>\<open>for (let i = tiles.length - 1; i >= 0; i--)\<close> of the click handler:
  the index of the first tile, from the end, that contains the point.
\<close>

fun clickScan :: "nat \<Rightarrow> real \<Rightarrow> real \<Rightarrow> tile list \<Rightarrow> nat option" where
  "clickScan 0 px py ts = None"
| "clickScan (Suc i) px py ts =
     (if isPointInside (ts ! i) px py then Some i else clickScan i px py ts)"

definition click :: "real \<Rightarrow> real \<Rightarrow> state \<Rightarrow> state" where
  "click px py s =
     (if \<not> running s then s
      else case clickScan (length (tiles s)) px py (tiles s) of
             Some i \<Rightarrow> s\<lparr>tiles := splice1 i (tiles s), score := score s + 1,
                         signals := signals s @ [HitSound]\<rparr>
           | None \<Rightarrow> penalizeMiss s)"

subsection \<open>Keyboard input\<close>

definition inHitZone :: "real \<Rightarrow> real \<Rightarrow> tile \<Rightarrow> bool" where
  "inHitZone hitY fieldH t \<longleftrightarrow> y t + h t \<ge> hitY \<and> y t \<le> fieldH"

text \<open>
  The forward scan of lines 400--405. The pair carried along is
  \<^verbatim>\<open>(candidateIndex, bestY)\<close>; \<^term>\<open>None\<close> is the start \<^verbatim>\<open>(-1, -Infinity)\<close>, below
  which no tile's bottom edge lies.
\<close>

definition hitStep :: "real \<Rightarrow> real \<Rightarrow> tile \<Rightarrow> nat \<Rightarrow> (nat \<times> real) option
    \<Rightarrow> (nat \<times> real) option" where
  "hitStep hitY fieldH t i acc =
     (if inHitZone hitY fieldH t
      then (case acc of
              None \<Rightarrow> Some (i, y t + h t)
            | Some (c, bestY) \<Rightarrow>
                if y t + h t > bestY then Some (i, y t + h t) else Some (c, bestY))
      else acc)"

fun hitScan :: "real \<Rightarrow> real \<Rightarrow> tile list \<Rightarrow> nat \<Rightarrow> (nat \<times> real) option
    \<Rightarrow> (nat \<times> real) option" where
  "hitScan hitY fieldH [] i acc = acc"
| "hitScan hitY fieldH (t # ts) i acc =
     hitScan hitY fieldH ts (Suc i) (hitStep hitY fieldH t i acc)"

definition candidate :: "state \<Rightarrow> (nat \<times> real) option" where
  "candidate s = hitScan (height s - hitZoneHeight) (height s) (tiles s) 0 None"

definition keyHit :: "nat \<Rightarrow> state \<Rightarrow> state" where
  "keyHit i s =
     (let s1 = s\<lparr>tiles := splice1 i (tiles s), score := score s + 1,
                 signals := signals s @ [HitSound]\<rparr>;
          s2 = s1\<lparr>tileSpeed := tileSpeed s1 * (1002 / 1000)\<rparr>
      in if spawnInterval s2 > 380
         then s2\<lparr>spawnInterval := spawnInterval s2 * (998 / 1000)\<rparr> else s2)"

definition keydown :: "key_event \<Rightarrow> state \<Rightarrow> state" where
  "keydown e s =
     (if \<not> running s then (if key e = ''Enter'' then startGame s else s)
      else if code e = ''Space'' \<or> key e = ''ArrowDown''
      then (case candidate s of
              Some (i, bestY) \<Rightarrow> keyHit i s
            | None \<Rightarrow> penalizeMiss s)
      else s)"

subsection \<open>Reachable states\<close>

text \<open>
  \<^verbatim>\<open>init()\<close> starts the first run from the module-level values; afterwards the state
  changes only through the four entry points.
\<close>

inductive reachable :: "state \<Rightarrow> bool" where
  r_init: "reachable (startGame initial)"
| r_frame: "reachable s \<Longrightarrow> rnd_ok r \<Longrightarrow> reachable (gameLoop ts r s)"
| r_click: "reachable s \<Longrightarrow> reachable (click px py s)"
| r_key: "reachable s \<Longrightarrow> reachable (keydown e s)"
| r_restart: "reachable s \<Longrightarrow> reachable (restart chosen s)"

subsection \<open>Vocabulary of the properties, and concrete states\<close>

text \<open>A tile has left the field when its top edge is below the bottom boundary.\<close>

definition crossed :: "real \<Rightarrow> tile \<Rightarrow> bool" where
  "crossed fieldH t \<longleftrightarrow> y t > fieldH"

text \<open>The state right after \<^verbatim>\<open>init()\<close>: a run of the normal profile has just begun.\<close>

definition fresh :: state where
  "fresh = startGame initial"

definition rnd0 :: rnd where
  "rnd0 = \<lparr>r_w = 0, r_h = 0, r_x = 0, r_m = 0\<rparr>"

text \<open>A field of height 600 with one tile whose top edge is at 601.\<close>

definition sB :: state where
  "sB = fresh\<lparr>tiles := [\<lparr>x = 100, y = 601, w = 64, h = 32, speed = 110\<rparr>]\<rparr>"

text \<open>Two overlapping tiles, \<open>tileA\<close> spawned before \<open>tileB\<close>; both contain the point (120, 210).\<close>

definition tileA :: tile where
  "tileA = \<lparr>x = 100, y = 200, w = 64, h = 32, speed = 110\<rparr>"

definition tileB :: tile where
  "tileB = \<lparr>x = 110, y = 205, w = 64, h = 32, speed = 120\<rparr>"

definition sD :: state where
  "sD = fresh\<lparr>tiles := [tileA, tileB]\<rparr>"

text \<open>The same field when only one life is left.\<close>

definition sL :: state where
  "sL = sD\<lparr>lives := 1\<rparr>"

text \<open>A running game whose spawn interval has come down to 300 ms.\<close>

definition sP :: state where
  "sP = fresh\<lparr>spawnInterval := 300\<rparr>"

text \<open>
  A running game whose spawn interval is 380.5 ms, with one tile inside the hit zone
  (the zone begins at 510 in a field of height 600).
\<close>

definition sK :: state where
  "sK = fresh\<lparr>spawnInterval := 761 / 2,
              tiles := [\<lparr>x = 100, y = 500, w = 64, h = 32, speed = 110\<rparr>]\<rparr>"

definition spaceKey :: key_event where
  "spaceKey = \<lparr>key = '' '', code = ''Space''\<rparr>"





text \<open>A running game whose last frame had the timestamp 2000 ms.\<close>

definition sT :: state where
  "sT = fresh\<lparr>tiles := [\<lparr>x = 100, y = 200, w = 64, h = 32, speed = 110\<rparr>],
              lastTime := 2000\<rparr>"

text \<open>
  What the pair carried by the scan of the key handler says about the tiles \<open>ts\<close>
  seen so far: no tile is in the hit zone, or the pair names a tile of the zone whose
  bottom edge \<open>y + h\<close> is the greatest of the zone, and the first tile with that edge.
\<close>

definition bestIn :: "real \<Rightarrow> real \<Rightarrow> tile list \<Rightarrow> (nat \<times> real) option \<Rightarrow> bool" where
  "bestIn hy fh ts acc \<longleftrightarrow>
     (case acc of
        None \<Rightarrow> \<forall>t \<in> set ts. \<not> inHitZone hy fh t
      | Some (c, b) \<Rightarrow>
          c < length ts \<and> inHitZone hy fh (ts ! c) \<and> b = y (ts ! c) + h (ts ! c)
          \<and> (\<forall>j < length ts. inHitZone hy fh (ts ! j) \<longrightarrow> y (ts ! j) + h (ts ! j) \<le> b)
          \<and> (\<forall>j < c. inHitZone hy fh (ts ! j) \<longrightarrow> y (ts ! j) + h (ts ! j) < b))"

text \<open>
  The tiles named by claim C4: \<open>c\<close> is the index of a tile in the hit zone whose bottom
  edge is the greatest of the zone, and the first index with that edge.
\<close>

definition lowestInZone :: "state \<Rightarrow> nat \<Rightarrow> bool" where
  "lowestInZone s c \<longleftrightarrow>
     bestIn (height s - hitZoneHeight) (height s) (tiles s)
       (Some (c, y (tiles s ! c) + h (tiles s ! c)))"

text \<open>
  Three tiles in a field of height 600: the first is above the hit zone, the other two
  are in the zone with the same bottom edge 532.
\<close>

definition tileU :: tile where
  "tileU = \<lparr>x = 300, y = 100, w = 64, h = 32, speed = 110\<rparr>"

definition tileV :: tile where
  "tileV = \<lparr>x = 100, y = 500, w = 64, h = 32, speed = 110\<rparr>"

definition tileW :: tile where
  "tileW = \<lparr>x = 200, y = 490, w = 64, h = 42, speed = 110\<rparr>"

definition sZ :: state where
  "sZ = fresh\<lparr>tiles := [tileU, tileV, tileW]\<rparr>"

text \<open>
  A run of the normal profile: frames at 1000, 2000, 3000 and 4000 ms, then a frame that
  comes late, at 1000000 ms (the scheduler calls no frame while the page is hidden).
\<close>

definition run1 :: state where
  "run1 = gameLoop 1000 rnd0 fresh"

definition run2 :: state where
  "run2 = gameLoop 2000 rnd0 run1"

definition run3 :: state where
  "run3 = gameLoop 3000 rnd0 run2"

definition run4 :: state where
  "run4 = gameLoop 4000 rnd0 run3"

definition run5 :: state where
  "run5 = gameLoop 1000000 rnd0 run4"

text \<open>The tile that \<open>spawnTile\<close> makes from \<open>rnd0\<close> in that run, at height \<open>y0\<close>.\<close>

definition tile0 :: "real \<Rightarrow> tile" where
  "tile0 y0 = \<lparr>x = 16, y = y0, w = 64, h = 32, speed = 1045 / 10\<rparr>"

text \<open>The states of that run differ in five fields only.\<close>

definition runState :: "tile list \<Rightarrow> real \<Rightarrow> int \<Rightarrow> bool \<Rightarrow> signal list \<Rightarrow> state" where
  "runState ts lt lv rn sg =
     \<lparr>tiles = ts, lastSpawn = 0, spawnInterval = 900, tileSpeed = 110, score = 0,
      lives = lv, running = rn, lastTime = lt, difficulty = ''normal'', flashTime = 0,
      width = 800, height = 600, signals = sg\<rparr>"

section \<open>Properties\<close>

subsection \<open>The loop over the tiles\<close>

lemma fresh_simps:
  "tiles fresh = []" "lastSpawn fresh = 0" "spawnInterval fresh = 900"
  "tileSpeed fresh = 110" "score fresh = 0" "lives fresh = 3" "running fresh"
  "lastTime fresh = 0" "difficulty fresh = ''normal''" "flashTime fresh = 0"
  "width fresh = 800" "height fresh = 600" "signals fresh = [RequestFrame]"
  by (simp_all add: fresh_def startGame_def initial_def applyDifficulty_def
      difficultySettings_def normal_def Let_def)

lemma updateTileAt_tiles:
  "i < length (tiles s) \<Longrightarrow> tiles (updateTileAt i dt s) =
     (if y (tile_update (tiles s ! i) dt) > height s
      then take i (tiles s) @ drop (Suc i) (tiles s)
      else take i (tiles s) @ tile_update (tiles s ! i) dt # drop (Suc i) (tiles s))"
  by (simp add: updateTileAt_def Let_def endGame_def splice1_def upd_conv_take_nth_drop)

lemma updateTileAt_lives:
  "lives (updateTileAt i dt s) =
     (if y (tile_update (tiles s ! i) dt) > height s then lives s - 1 else lives s)"
  by (simp add: updateTileAt_def Let_def endGame_def)

lemma updateTileAt_frame:
  "height (updateTileAt i dt s) = height s"
  "width (updateTileAt i dt s) = width s"
  "lastSpawn (updateTileAt i dt s) = lastSpawn s"
  "spawnInterval (updateTileAt i dt s) = spawnInterval s"
  "tileSpeed (updateTileAt i dt s) = tileSpeed s"
  "score (updateTileAt i dt s) = score s"
  "lastTime (updateTileAt i dt s) = lastTime s"
  "difficulty (updateTileAt i dt s) = difficulty s"
  "flashTime (updateTileAt i dt s) = flashTime s"
  by (simp_all add: updateTileAt_def Let_def endGame_def)

lemma updateLoop_frame:
  "height (updateLoop i dt s) = height s"
  "width (updateLoop i dt s) = width s"
  "lastSpawn (updateLoop i dt s) = lastSpawn s"
  "spawnInterval (updateLoop i dt s) = spawnInterval s"
  "tileSpeed (updateLoop i dt s) = tileSpeed s"
  "score (updateLoop i dt s) = score s"
  "lastTime (updateLoop i dt s) = lastTime s"
  "difficulty (updateLoop i dt s) = difficulty s"
  "flashTime (updateLoop i dt s) = flashTime s"
  by (induction i arbitrary: s; simp add: updateTileAt_frame)+

text \<open>
  Running the loop over the indices below \<open>i\<close> moves those tiles, drops the ones that
  crossed the bottom and leaves the tiles from \<open>i\<close> on as they were.
\<close>

lemma updateLoop_tiles:
  "i \<le> length (tiles s) \<Longrightarrow> tiles (updateLoop i dt s) =
     filter (\<lambda>t. \<not> crossed (height s) t) (map (\<lambda>t. tile_update t dt) (take i (tiles s)))
       @ drop i (tiles s)"
proof (induction i arbitrary: s)
  case 0
  then show ?case by simp
next
  case (Suc i)
  let ?s = "updateTileAt i dt s"
  from Suc.prems have lt: "i < length (tiles s)" by simp
  have len: "i \<le> length (tiles ?s)"
    using lt by (auto simp: updateTileAt_tiles)
  have tk: "take i (tiles ?s) = take i (tiles s)"
    using lt by (simp add: updateTileAt_tiles)
  show ?case
    using lt Suc.IH [OF len]
    by (simp add: tk updateTileAt_frame updateTileAt_tiles take_Suc_conv_app_nth crossed_def)
qed

lemma updateLoop_lives:
  "i \<le> length (tiles s) \<Longrightarrow> lives (updateLoop i dt s) =
     lives s - int (length (filter (crossed (height s))
        (map (\<lambda>t. tile_update t dt) (take i (tiles s)))))"
proof (induction i arbitrary: s)
  case 0
  then show ?case by simp
next
  case (Suc i)
  let ?s = "updateTileAt i dt s"
  from Suc.prems have lt: "i < length (tiles s)" by simp
  have len: "i \<le> length (tiles ?s)"
    using lt by (auto simp: updateTileAt_tiles)
  have tk: "take i (tiles ?s) = take i (tiles s)"
    using lt by (simp add: updateTileAt_tiles)
  show ?case
    using lt Suc.IH [OF len]
    by (simp add: tk updateTileAt_frame updateTileAt_lives take_Suc_conv_app_nth crossed_def)
qed

lemma spawnStep_frame:
  "height (spawnStep dt r s) = height s"
  "lives (spawnStep dt r s) = lives s"
  by (simp_all add: spawnStep_def spawnTile_def Let_def)

subsection \<open>Tiles that fall out of the field\<close>

text \<open>
  Claim C2. One call of \<open>update\<close> moves every tile of the collection (the tile spawned
  in this call included), removes exactly those whose top edge is then below the bottom
  of the field, and takes one life for each of them; no tile below the bottom is left.
  In particular a single tile at \<open>y = 601\<close> in a field of height 600 is removed by
  \<open>update\<close> with \<open>dt = 0\<close>, and three lives become two.
\<close>

theorem C2_miss_accounting:
  "tiles (update dt r s) =
     filter (\<lambda>t. \<not> crossed (height s) t)
       (map (\<lambda>t. tile_update t dt) (tiles (spawnStep dt r s)))
   \<and> lives (update dt r s) =
     lives s - int (length (filter (crossed (height s))
       (map (\<lambda>t. tile_update t dt) (tiles (spawnStep dt r s)))))
   \<and> (\<forall>t \<in> set (tiles (update dt r s)). \<not> y t > height s)
   \<and> (height s = 600 \<and> tiles s = [t] \<and> y t = 601 \<and> lives s = 3
        \<and> lastSpawn s \<le> spawnInterval s
      \<longrightarrow> tiles (update 0 r s) = [] \<and> lives (update 0 r s) = 2)"
proof -
  have T: "\<And>dt. tiles (update dt r s) =
     filter (\<lambda>t. \<not> crossed (height s) t)
       (map (\<lambda>t. tile_update t dt) (tiles (spawnStep dt r s)))"
    by (simp add: update_def Let_def updateLoop_tiles spawnStep_frame)
  have L: "\<And>dt. lives (update dt r s) =
     lives s - int (length (filter (crossed (height s))
       (map (\<lambda>t. tile_update t dt) (tiles (spawnStep dt r s)))))"
    by (simp add: update_def Let_def updateLoop_lives spawnStep_frame)
  have B: "\<forall>t \<in> set (tiles (update dt r s)). \<not> y t > height s"
    by (simp add: T crossed_def)
  have S: "height s = 600 \<and> tiles s = [t] \<and> y t = 601 \<and> lives s = 3
        \<and> lastSpawn s \<le> spawnInterval s
      \<longrightarrow> tiles (update 0 r s) = [] \<and> lives (update 0 r s) = 2"
    by (simp add: T L spawnStep_def Let_def crossed_def tile_update_def)
  from T L B S show ?thesis by blast
qed

theorem C2_scenario_B_witness:
  "height sB = 600 \<and> lives sB = 3 \<and> map y (tiles sB) = [601]
   \<and> tiles (update 0 rnd0 sB) = [] \<and> lives (update 0 rnd0 sB) = 2"
proof -
  let ?t = "\<lparr>x = 100, y = 601, w = 64, h = 32, speed = 110\<rparr>"
  have pre: "height sB = 600 \<and> tiles sB = [?t] \<and> y ?t = 601 \<and> lives sB = 3
      \<and> lastSpawn sB \<le> spawnInterval sB"
    by (simp add: sB_def fresh_simps)
  from C2_miss_accounting [of 0 rnd0 sB ?t] pre
  have "tiles (update 0 rnd0 sB) = [] \<and> lives (update 0 rnd0 sB) = 2"
    by blast
  with pre show ?thesis by simp
qed

subsection \<open>Spawning\<close>

lemma newTile_y_bound:
  assumes "difficulty s = ''normal''" "tileSpeed s = 110" "0 \<le> r_m r" "r_m r < 1"
  shows "y (tile_update (newTile s r) (95 / 100)) \<le> 600"
proof -
  define hh where "hh = max 24 (js_round
      (max 40 (min 100 (width s * (8 / 100 + r_w r * (7 / 100)))) * (1 / 2 + r_h r * (6 / 10))))"
  have hh: "24 \<le> hh" by (simp add: hh_def)
  have "y (tile_update (newTile s r) (95 / 100)) =
      - hh - 10 + 110 * (95 / 100 + r_m r * (50 / 100)) * (95 / 100)"
    using assms(1,2) unfolding hh_def
    by (simp add: newTile_def Let_def Tile_def tile_update_def difficultySettings_def
        normal_def)
  also have "\<dots> \<le> 600" using hh assms(3,4) by (simp add: field_simps)
  finally show ?thesis .
qed

text \<open>
  Claim C5. The spawn step of \<open>update\<close> adds \<open>dt * 1000\<close> to the accumulator; when
  the sum exceeds the spawn interval the accumulator becomes 0, whatever the overshoot,
  and exactly one tile is appended; otherwise no tile is. So a call of \<open>update\<close> never
  adds more than one tile. From a fresh start of the normal profile,
  \<open>update\<close> with \<open>dt = 0.95\<close> leaves exactly one tile, the accumulator at 0 and
  the three lives untouched.
\<close>

theorem C5_one_spawn_per_update:
  "(lastSpawn s + dt * 1000 > spawnInterval s \<longrightarrow>
      lastSpawn (update dt r s) = 0
      \<and> tiles (spawnStep dt r s) = tiles s @ [newTile s r])
   \<and> (\<not> lastSpawn s + dt * 1000 > spawnInterval s \<longrightarrow>
      lastSpawn (update dt r s) = lastSpawn s + dt * 1000
      \<and> tiles (spawnStep dt r s) = tiles s)
   \<and> tiles (update dt r s) =
       filter (\<lambda>t. \<not> crossed (height s) t)
         (map (\<lambda>t. tile_update t dt) (tiles (spawnStep dt r s)))
   \<and> length (tiles (update dt r s)) \<le> length (tiles s) + 1
   \<and> (rnd_ok r \<longrightarrow>
        tiles (update (95 / 100) r fresh) = [tile_update (newTile fresh r) (95 / 100)]
        \<and> lastSpawn (update (95 / 100) r fresh) = 0
        \<and> lives (update (95 / 100) r fresh) = lives fresh)"
proof -
  have sp: "\<And>dt s. tiles (spawnStep dt r s) =
      (if lastSpawn s + dt * 1000 > spawnInterval s then tiles s @ [newTile s r]
       else tiles s)"
    by (simp add: spawnStep_def spawnTile_def newTile_def Let_def)
  have ls: "\<And>dt s. lastSpawn (update dt r s) =
      (if lastSpawn s + dt * 1000 > spawnInterval s then 0 else lastSpawn s + dt * 1000)"
    by (simp add: update_def Let_def updateLoop_frame spawnStep_def spawnTile_def)
  have T: "\<And>dt s. tiles (update dt r s) =
     filter (\<lambda>t. \<not> crossed (height s) t)
       (map (\<lambda>t. tile_update t dt) (tiles (spawnStep dt r s)))"
    by (simp add: update_def Let_def updateLoop_tiles spawnStep_frame)
  have L: "\<And>dt s. lives (update dt r s) =
     lives s - int (length (filter (crossed (height s))
       (map (\<lambda>t. tile_update t dt) (tiles (spawnStep dt r s)))))"
    by (simp add: update_def Let_def updateLoop_lives spawnStep_frame)
  have "length (tiles (update dt r s)) \<le> length (tiles (spawnStep dt r s))"
    unfolding T by (rule order_trans [OF length_filter_le]) simp
  then have len: "length (tiles (update dt r s)) \<le> length (tiles s) + 1"
    by (simp add: sp split: if_splits)
  have A: "tiles (update (95 / 100) r fresh) = [tile_update (newTile fresh r) (95 / 100)]
        \<and> lastSpawn (update (95 / 100) r fresh) = 0
        \<and> lives (update (95 / 100) r fresh) = lives fresh" if ok: "rnd_ok r"
  proof -
    from ok have "y (tile_update (newTile fresh r) (95 / 100)) \<le> 600"
      by (intro newTile_y_bound) (simp_all add: fresh_simps rnd_ok_def)
    then show ?thesis
      by (simp add: T L ls sp fresh_simps crossed_def)
  qed
  from sp ls T len A show ?thesis by simp
qed

theorem C5_scenario_A_witness:
  "spawnInterval fresh = 900 \<and> tileSpeed fresh = 110 \<and> lives fresh = 3
   \<and> tiles fresh = [] \<and> rnd_ok rnd0
   \<and> tiles (update (95 / 100) rnd0 fresh) =
       [\<lparr>x = 16, y = 57275 / 1000, w = 64, h = 32, speed = 1045 / 10\<rparr>]
   \<and> lastSpawn (update (95 / 100) rnd0 fresh) = 0
   \<and> lives (update (95 / 100) rnd0 fresh) = 3
   \<and> tiles (update (1 / 2) rnd0 fresh) = []
   \<and> lastSpawn (update (1 / 2) rnd0 fresh) = 500"
proof -
  have ok: "rnd_ok rnd0" by (simp add: rnd_ok_def rnd0_def)
  have under: "\<not> lastSpawn fresh + 1 / 2 * 1000 > spawnInterval fresh"
    by (simp add: fresh_simps)
  from C5_one_spawn_per_update [of fresh "1 / 2" rnd0] under
  have "lastSpawn (update (1 / 2) rnd0 fresh) = lastSpawn fresh + 1 / 2 * 1000
      \<and> tiles (spawnStep (1 / 2) rnd0 fresh) = tiles fresh
      \<and> tiles (update (1 / 2) rnd0 fresh) =
          filter (\<lambda>t. \<not> crossed (height fresh) t)
            (map (\<lambda>t. tile_update t (1 / 2)) (tiles (spawnStep (1 / 2) rnd0 fresh)))"
    by blast
  then have half: "tiles (update (1 / 2) rnd0 fresh) = []
      \<and> lastSpawn (update (1 / 2) rnd0 fresh) = 500"
    by (simp add: fresh_simps)
  have over: "lastSpawn fresh + 95 / 100 * 1000 > spawnInterval fresh"
    by (simp add: fresh_simps)
  have nt: "tile_update (newTile fresh rnd0) (95 / 100) =
      \<lparr>x = 16, y = 57275 / 1000, w = 64, h = 32, speed = 1045 / 10\<rparr>"
    by (simp add: newTile_def Let_def Tile_def tile_update_def difficultySettings_def
        normal_def fresh_simps rnd0_def js_round_def)
  from C5_one_spawn_per_update [of fresh "95 / 100" rnd0] ok over
  have "tiles (update (95 / 100) rnd0 fresh) = [tile_update (newTile fresh rnd0) (95 / 100)]
        \<and> lastSpawn (update (95 / 100) rnd0 fresh) = 0
        \<and> lives (update (95 / 100) rnd0 fresh) = lives fresh"
    by blast
  with ok nt half show ?thesis by (simp add: fresh_simps)
qed

subsection \<open>What a miss costs\<close>

text \<open>
  The whole effect of \<open>penalizeMiss\<close>: one life less, the alarm timer at 0.22 s, the
  miss sound, the fall speed times 1.06, the spawn interval times 0.92 when it is above
  280 ms, and, when that was the last life, the end of the run with its game-over signal.
\<close>

lemma penalizeMiss_eq:
  "penalizeMiss s =
     s\<lparr>lives := lives s - 1,
        flashTime := 22 / 100,
        signals := signals s @ MissSound # (if lives s \<le> 1 then [GameOver (score s)] else []),
        tileSpeed := tileSpeed s * (106 / 100),
        spawnInterval := (if 280 < spawnInterval s then spawnInterval s * (92 / 100)
                          else spawnInterval s),
        running := (running s \<and> 1 < lives s)\<rparr>"
  by (cases "lives s \<le> 1"; cases "280 < spawnInterval s")
    (simp_all add: penalizeMiss_def endGame_def Let_def)

subsection \<open>Pointer input\<close>

lemma clickScan_Some:
  "clickScan n px py ts = Some i \<Longrightarrow>
     i < n \<and> isPointInside (ts ! i) px py
     \<and> (\<forall>j. i < j \<and> j < n \<longrightarrow> \<not> isPointInside (ts ! j) px py)"
proof (induction n)
  case 0
  then show ?case by simp
next
  case (Suc n)
  show ?case
  proof (cases "isPointInside (ts ! n) px py")
    case True
    with Suc.prems show ?thesis by auto
  next
    case False
    with Suc.prems have "clickScan n px py ts = Some i" by simp
    from Suc.IH [OF this] False show ?thesis
      by (auto simp: less_Suc_eq)
  qed
qed

lemma clickScan_None:
  "clickScan n px py ts = None \<longleftrightarrow> (\<forall>j<n. \<not> isPointInside (ts ! j) px py)"
  by (induction n) (auto simp: less_Suc_eq)

lemma clickScan_last:
  assumes "i < n" "isPointInside (ts ! i) px py"
    and "\<forall>j. i < j \<and> j < n \<longrightarrow> \<not> isPointInside (ts ! j) px py"
  shows "clickScan n px py ts = Some i"
proof (cases "clickScan n px py ts")
  case None
  with assms(1,2) show ?thesis by (simp add: clickScan_None)
next
  case (Some k)
  from clickScan_Some [OF Some] assms have "k = i"
    by (metis linorder_neqE_nat)
  with Some show ?thesis by simp
qed

lemma clickScan_set:
  "(\<exists>t \<in> set ts. isPointInside t px py) \<longleftrightarrow> clickScan (length ts) px py ts \<noteq> None"
  unfolding clickScan_None by (metis in_set_conv_nth)

text \<open>
  Claim C3. While the game runs, a click removes the tile of greatest index (the most
  recently spawned one) among those whose box contains the point, adds one to the score and
  removes nothing else. When no box contains the point, the click applies the miss
  penalty: one life less, the alarm timer set to 0.22 s, the miss sound, the fall speed
  times 1.06, the spawn interval times 0.92 when it is above 280 ms, and the end of the
  run (\<open>running\<close> false, game-over signal with the score) when no life is left.
\<close>

theorem C3_pointer_hit_most_recent:
  assumes "running s"
  shows "(\<forall>i. i < length (tiles s) \<and> isPointInside (tiles s ! i) px py
            \<and> (\<forall>j. i < j \<and> j < length (tiles s) \<longrightarrow> \<not> isPointInside (tiles s ! j) px py)
          \<longrightarrow> click px py s = s\<lparr>tiles := take i (tiles s) @ drop (Suc i) (tiles s),
                                  score := score s + 1,
                                  signals := signals s @ [HitSound]\<rparr>)
    \<and> ((\<exists>t \<in> set (tiles s). isPointInside t px py) \<longrightarrow>
          length (tiles (click px py s)) + 1 = length (tiles s)
          \<and> score (click px py s) = score s + 1)
    \<and> ((\<forall>t \<in> set (tiles s). \<not> isPointInside t px py) \<longrightarrow>
          click px py s = s\<lparr>lives := lives s - 1,
             flashTime := 22 / 100,
             signals := signals s @ MissSound #
                (if lives s \<le> 1 then [GameOver (score s)] else []),
             tileSpeed := tileSpeed s * (106 / 100),
             spawnInterval := (if 280 < spawnInterval s then spawnInterval s * (92 / 100)
                               else spawnInterval s),
             running := 1 < lives s\<rparr>)"
proof (intro conjI allI impI)
  fix i
  assume "i < length (tiles s) \<and> isPointInside (tiles s ! i) px py
      \<and> (\<forall>j. i < j \<and> j < length (tiles s) \<longrightarrow> \<not> isPointInside (tiles s ! j) px py)"
  then have "clickScan (length (tiles s)) px py (tiles s) = Some i"
    by (intro clickScan_last) auto
  with assms show "click px py s = s\<lparr>tiles := take i (tiles s) @ drop (Suc i) (tiles s),
      score := score s + 1, signals := signals s @ [HitSound]\<rparr>"
    by (simp add: click_def splice1_def)
next
  assume ex: "\<exists>t \<in> set (tiles s). isPointInside t px py"
  then obtain i where i: "clickScan (length (tiles s)) px py (tiles s) = Some i"
    using clickScan_set [of "tiles s" px py] by auto
  from clickScan_Some [OF i] have lt: "i < length (tiles s)" by simp
  from assms i lt show "length (tiles (click px py s)) + 1 = length (tiles s)"
    by (simp add: click_def splice1_def)
  from assms i show "score (click px py s) = score s + 1"
    by (simp add: click_def)
next
  assume "\<forall>t \<in> set (tiles s). \<not> isPointInside t px py"
  then have "clickScan (length (tiles s)) px py (tiles s) = None"
    using clickScan_set [of "tiles s" px py] by auto
  with assms have "click px py s = penalizeMiss s"
    by (simp add: click_def)
  with assms show "click px py s = s\<lparr>lives := lives s - 1,
             flashTime := 22 / 100,
             signals := signals s @ MissSound #
                (if lives s \<le> 1 then [GameOver (score s)] else []),
             tileSpeed := tileSpeed s * (106 / 100),
             spawnInterval := (if 280 < spawnInterval s then spawnInterval s * (92 / 100)
                               else spawnInterval s),
             running := 1 < lives s\<rparr>"
    by (simp add: penalizeMiss_eq)
qed

theorem C3_scenario_D_witness:
  "running sD \<and> tiles sD = [tileA, tileB]
   \<and> isPointInside tileA 120 210 \<and> isPointInside tileB 120 210
   \<and> click 120 210 sD = sD\<lparr>tiles := [tileA], score := score sD + 1,
                             signals := signals sD @ [HitSound]\<rparr>
   \<and> length (tiles (click 120 210 sD)) + 1 = length (tiles sD)
   \<and> click 0 0 sD = sD\<lparr>lives := 2, flashTime := 22 / 100,
                         signals := [RequestFrame, MissSound],
                         tileSpeed := 1166 / 10, spawnInterval := 828,
                         running := True\<rparr>
   \<and> running sL \<and> lives sL = 1
   \<and> click 0 0 sL = sL\<lparr>lives := 0, flashTime := 22 / 100,
                         signals := [RequestFrame, MissSound, GameOver 0],
                         tileSpeed := 1166 / 10, spawnInterval := 828,
                         running := False\<rparr>"
proof -
  have run: "running sD" and ts: "tiles sD = [tileA, tileB]"
    by (simp_all add: sD_def fresh_simps)
  have runL: "running sL" and tsL: "tiles sL = [tileA, tileB]" and lvL: "lives sL = 1"
    by (simp_all add: sL_def sD_def fresh_simps)
  have inA: "isPointInside tileA 120 210" and inB: "isPointInside tileB 120 210"
    by (simp_all add: isPointInside_def tileA_def tileB_def)
  have out: "\<forall>t \<in> set (tiles sD). \<not> isPointInside t 0 0"
    by (simp add: ts isPointInside_def tileA_def tileB_def)
  have outL: "\<forall>t \<in> set (tiles sL). \<not> isPointInside t 0 0"
    by (simp add: tsL isPointInside_def tileA_def tileB_def)
  have top: "1 < length (tiles sD) \<and> isPointInside (tiles sD ! 1) 120 210
      \<and> (\<forall>j. 1 < j \<and> j < length (tiles sD) \<longrightarrow> \<not> isPointInside (tiles sD ! j) 120 210)"
    using inB by (simp add: ts)
  from C3_pointer_hit_most_recent [OF run, of 120 210] top
  have hit: "click 120 210 sD = sD\<lparr>tiles := take 1 (tiles sD) @ drop (Suc 1) (tiles sD),
      score := score sD + 1, signals := signals sD @ [HitSound]\<rparr>"
    by blast
  from C3_pointer_hit_most_recent [OF run, of 0 0] out
  have "click 0 0 sD = sD\<lparr>lives := lives sD - 1, flashTime := 22 / 100,
      signals := signals sD @ MissSound # (if lives sD \<le> 1 then [GameOver (score sD)] else []),
      tileSpeed := tileSpeed sD * (106 / 100),
      spawnInterval := (if 280 < spawnInterval sD then spawnInterval sD * (92 / 100)
                        else spawnInterval sD),
      running := 1 < lives sD\<rparr>"
    by blast
  then have miss: "click 0 0 sD = sD\<lparr>lives := 2, flashTime := 22 / 100,
      signals := [RequestFrame, MissSound], tileSpeed := 1166 / 10, spawnInterval := 828,
      running := True\<rparr>"
    by (simp add: sD_def fresh_simps)
  from C3_pointer_hit_most_recent [OF runL, of 0 0] outL
  have "click 0 0 sL = sL\<lparr>lives := lives sL - 1, flashTime := 22 / 100,
      signals := signals sL @ MissSound # (if lives sL \<le> 1 then [GameOver (score sL)] else []),
      tileSpeed := tileSpeed sL * (106 / 100),
      spawnInterval := (if 280 < spawnInterval sL then spawnInterval sL * (92 / 100)
                        else spawnInterval sL),
      running := 1 < lives sL\<rparr>"
    by blast
  then have last: "click 0 0 sL = sL\<lparr>lives := 0, flashTime := 22 / 100,
      signals := [RequestFrame, MissSound, GameOver 0], tileSpeed := 1166 / 10,
      spawnInterval := 828, running := False\<rparr>"
    by (simp add: sL_def sD_def fresh_simps)
  have "\<exists>t \<in> set (tiles sD). isPointInside t 120 210"
    using inB by (simp add: ts)
  with C3_pointer_hit_most_recent [OF run, of 120 210]
  have len: "length (tiles (click 120 210 sD)) + 1 = length (tiles sD)" by blast
  from hit have hit': "click 120 210 sD = sD\<lparr>tiles := [tileA], score := score sD + 1,
      signals := signals sD @ [HitSound]\<rparr>"
    by (simp add: ts)
  from run inA inB hit' len miss runL lvL last ts show ?thesis by blast
qed

text \<open>
  Claim C10. A click that hits leaves every field of the state as it was, except that
  one tile containing the point is taken out of the collection (the others keep their
  values and their order) and the score grows by one. What is recorded besides is
  the hit sound.
\<close>

theorem C10_pointer_hit_frame:
  assumes "running s" and "\<exists>t \<in> set (tiles s). isPointInside t px py"
  shows "\<exists>i < length (tiles s). isPointInside (tiles s ! i) px py
      \<and> click px py s = s\<lparr>tiles := take i (tiles s) @ drop (Suc i) (tiles s),
                            score := score s + 1,
                            signals := signals s @ [HitSound]\<rparr>
      \<and> lives (click px py s) = lives s
      \<and> spawnInterval (click px py s) = spawnInterval s
      \<and> tileSpeed (click px py s) = tileSpeed s
      \<and> lastSpawn (click px py s) = lastSpawn s
      \<and> running (click px py s) = running s
      \<and> lastTime (click px py s) = lastTime s
      \<and> flashTime (click px py s) = flashTime s
      \<and> score (click px py s) = score s + 1"
proof -
  from assms(2) obtain i where i: "clickScan (length (tiles s)) px py (tiles s) = Some i"
    using clickScan_set [of "tiles s" px py] by auto
  from clickScan_Some [OF i]
  have lt: "i < length (tiles s)" and ins: "isPointInside (tiles s ! i) px py"
    by simp_all
  have eq: "click px py s = s\<lparr>tiles := take i (tiles s) @ drop (Suc i) (tiles s),
      score := score s + 1, signals := signals s @ [HitSound]\<rparr>"
    using assms(1) i by (simp add: click_def splice1_def)
  show ?thesis
    by (rule exI [of _ i]) (simp add: lt ins eq)
qed

theorem C10_pointer_hit_frame_witness:
  "running sD \<and> isPointInside tileB 120 210 \<and> tileB \<in> set (tiles sD)
   \<and> lives (click 120 210 sD) = lives sD
   \<and> spawnInterval (click 120 210 sD) = spawnInterval sD
   \<and> tileSpeed (click 120 210 sD) = tileSpeed sD
   \<and> lastSpawn (click 120 210 sD) = lastSpawn sD
   \<and> running (click 120 210 sD)
   \<and> score (click 120 210 sD) = score sD + 1"
proof -
  have run: "running sD" and ts: "tiles sD = [tileA, tileB]"
    by (simp_all add: sD_def fresh_simps)
  have inB: "isPointInside tileB 120 210"
    by (simp add: isPointInside_def tileB_def)
  then have ex: "\<exists>t \<in> set (tiles sD). isPointInside t 120 210"
    by (auto simp: ts)
  from C10_pointer_hit_frame [OF run ex] run inB show ?thesis
    by (auto simp: ts)
qed

subsection \<open>The miss penalty\<close>

lemma penalizeMiss_fields:
  "tileSpeed (penalizeMiss s) = tileSpeed s * (106 / 100)"
  "spawnInterval (penalizeMiss s) =
     (if spawnInterval s > 280 then spawnInterval s * (92 / 100) else spawnInterval s)"
  "lives (penalizeMiss s) = lives s - 1"
  "running (penalizeMiss s) = (running s \<and> lives s > 1)"
  "tiles (penalizeMiss s) = tiles s"
  "score (penalizeMiss s) = score s"
  by (auto simp: penalizeMiss_def endGame_def Let_def)

text \<open>
  Claim C6, as stated: the miss penalty never takes the spawn interval below 280 ms.
  It does: the interval 300 is above the threshold, is multiplied, and becomes 276.
\<close>

theorem C6_floor_counterexample:
  "spawnInterval sP = 300 \<and> spawnInterval (penalizeMiss sP) = 276
   \<and> spawnInterval (penalizeMiss sP) < 280"
  by (simp add: penalizeMiss_fields sP_def)

text \<open>
  Claim C6, amended. Every miss penalty multiplies the base fall speed by 1.06, a strict
  increase of a positive speed. It multiplies the spawn interval by 0.92, a strict
  decrease, exactly when the interval is above 280 ms, and leaves it unchanged
  otherwise. The test is made before the multiplication, so the result may lie below
  280 ms, but it stays above 257.6 ms (0.92 times 280), and an interval that is at least
  257.6 ms stays so.
\<close>

theorem C6_miss_penalty_escalation:
  "tileSpeed (penalizeMiss s) = tileSpeed s * (106 / 100)
   \<and> (0 < tileSpeed s \<longrightarrow> tileSpeed s < tileSpeed (penalizeMiss s))
   \<and> (280 < spawnInterval s \<longrightarrow>
        spawnInterval (penalizeMiss s) = spawnInterval s * (92 / 100)
        \<and> spawnInterval (penalizeMiss s) < spawnInterval s
        \<and> 2576 / 10 < spawnInterval (penalizeMiss s))
   \<and> (spawnInterval s \<le> 280 \<longrightarrow> spawnInterval (penalizeMiss s) = spawnInterval s)
   \<and> (2576 / 10 \<le> spawnInterval s \<longrightarrow> 2576 / 10 \<le> spawnInterval (penalizeMiss s))"
  by (simp add: penalizeMiss_fields)

theorem C6_miss_penalty_witness:
  "0 < tileSpeed sP \<and> tileSpeed (penalizeMiss sP) = 1166 / 10
   \<and> 280 < spawnInterval sP \<and> spawnInterval (penalizeMiss sP) = 276
   \<and> spawnInterval (penalizeMiss (penalizeMiss sP)) = 276"
proof -
  have pre: "0 < tileSpeed sP \<and> 280 < spawnInterval sP"
    by (simp add: sP_def fresh_simps)
  have v: "tileSpeed sP * (106 / 100) = 1166 / 10" "spawnInterval sP * (92 / 100) = 276"
    by (simp_all add: sP_def fresh_simps)
  from C6_miss_penalty_escalation [of sP] pre v
  have one: "tileSpeed (penalizeMiss sP) = 1166 / 10
      \<and> spawnInterval (penalizeMiss sP) = 276"
    by simp
  then have "spawnInterval (penalizeMiss sP) \<le> 280" by simp
  with C6_miss_penalty_escalation [of "penalizeMiss sP"] one
  have "spawnInterval (penalizeMiss (penalizeMiss sP)) = 276"
    by simp
  with pre one show ?thesis by simp
qed

subsection \<open>Keyboard input\<close>

lemma hitStep_best:
  assumes "bestIn hy fh pre acc"
  shows "bestIn hy fh (pre @ [t]) (hitStep hy fh t (length pre) acc)"
proof (cases acc)
  case None
  with assms have no: "\<forall>u \<in> set pre. \<not> inHitZone hy fh u"
    by (simp add: bestIn_def)
  show ?thesis
  proof (cases "inHitZone hy fh t")
    case True
    with None no show ?thesis
      by (auto simp: bestIn_def hitStep_def nth_append less_Suc_eq)
  next
    case False
    with None no show ?thesis by (simp add: bestIn_def hitStep_def)
  qed
next
  case (Some p)
  obtain c b where p: "p = (c, b)" by (cases p)
  from assms Some p
  have all: "c < length pre \<and> inHitZone hy fh (pre ! c) \<and> b = y (pre ! c) + h (pre ! c)
      \<and> (\<forall>j < length pre. inHitZone hy fh (pre ! j) \<longrightarrow> y (pre ! j) + h (pre ! j) \<le> b)
      \<and> (\<forall>j < c. inHitZone hy fh (pre ! j) \<longrightarrow> y (pre ! j) + h (pre ! j) < b)"
    by (auto simp: bestIn_def)
  then have c: "c < length pre" and z: "inHitZone hy fh (pre ! c)"
    and b: "b = y (pre ! c) + h (pre ! c)"
    and le: "\<forall>j < length pre. inHitZone hy fh (pre ! j) \<longrightarrow> y (pre ! j) + h (pre ! j) \<le> b"
    and ls: "\<forall>j < c. inHitZone hy fh (pre ! j) \<longrightarrow> y (pre ! j) + h (pre ! j) < b"
    by blast+
  show ?thesis
  proof (cases "inHitZone hy fh t \<and> y t + h t > b")
    case True
    have "\<forall>j < length pre. inHitZone hy fh (pre ! j) \<longrightarrow> y (pre ! j) + h (pre ! j) < y t + h t"
      using le True by fastforce
    with True Some p show ?thesis
      by (auto simp: bestIn_def hitStep_def nth_append less_Suc_eq)
  next
    case False
    then have st: "hitStep hy fh t (length pre) acc = Some (c, b)"
      using Some p by (auto simp: hitStep_def)
    from False have last: "inHitZone hy fh t \<longrightarrow> y t + h t \<le> b" by auto
    show ?thesis
      unfolding st using c z b le ls last
      by (auto simp: bestIn_def nth_append less_Suc_eq)
  qed
qed

lemma hitScan_best:
  "bestIn hy fh pre acc \<Longrightarrow> bestIn hy fh (pre @ suf) (hitScan hy fh suf (length pre) acc)"
proof (induction suf arbitrary: pre acc)
  case Nil
  then show ?case by simp
next
  case (Cons t suf)
  from hitStep_best [OF Cons.prems]
  have "bestIn hy fh (pre @ [t]) (hitStep hy fh t (length pre) acc)" .
  from Cons.IH [OF this] show ?case by simp
qed

lemma candidate_best:
  "bestIn (height s - hitZoneHeight) (height s) (tiles s) (candidate s)"
proof -
  have "bestIn (height s - hitZoneHeight) (height s) [] None"
    by (simp add: bestIn_def)
  from hitScan_best [OF this, of "tiles s"] show ?thesis
    by (simp add: candidate_def)
qed
lemma lowestInZone_candidate:
  assumes "lowestInZone s c"
  shows "candidate s = Some (c, y (tiles s ! c) + h (tiles s ! c))"
proof -
  let ?Z = "inHitZone (height s - hitZoneHeight) (height s)"
  let ?b = "\<lambda>j. y (tiles s ! j) + h (tiles s ! j)"
  from assms have c: "c < length (tiles s)" and z: "?Z (tiles s ! c)"
    and le: "\<forall>j < length (tiles s). ?Z (tiles s ! j) \<longrightarrow> ?b j \<le> ?b c"
    and ls: "\<forall>j < c. ?Z (tiles s ! j) \<longrightarrow> ?b j < ?b c"
    by (auto simp: lowestInZone_def bestIn_def)
  show ?thesis
  proof (cases "candidate s")
    case None
    with candidate_best [of s] have "\<forall>t \<in> set (tiles s). \<not> ?Z t"
      by (simp add: bestIn_def)
    with c z show ?thesis by (metis nth_mem)
  next
    case (Some p)
    obtain c' b' where p: "p = (c', b')" by (cases p)
    from candidate_best [of s] Some p
    have c': "c' < length (tiles s)" and z': "?Z (tiles s ! c')" and b': "b' = ?b c'"
      and le': "\<forall>j < length (tiles s). ?Z (tiles s ! j) \<longrightarrow> ?b j \<le> ?b c'"
      and ls': "\<forall>j < c'. ?Z (tiles s ! j) \<longrightarrow> ?b j < ?b c'"
      by (auto simp: bestIn_def)
    have eq: "?b c = ?b c'"
      using le le' c c' z z' by (meson order_antisym)
    have "c' = c"
    proof (rule ccontr)
      assume "c' \<noteq> c"
      then consider "c' < c" | "c < c'" by (meson linorder_neqE_nat)
      then show False
      proof cases
        case 1
        with ls z' have "?b c' < ?b c" by blast
        with eq show False by simp
      next
        case 2
        with ls' z have "?b c < ?b c'" by blast
        with eq show False by simp
      qed
    qed
    with Some p b' show ?thesis by simp
  qed
qed

lemma in_zone_candidate:
  assumes "\<exists>t \<in> set (tiles s). inHitZone (height s - hitZoneHeight) (height s) t"
  shows "\<exists>c. lowestInZone s c"
proof (cases "candidate s")
  case None
  with candidate_best [of s] assms show ?thesis by (simp add: bestIn_def)
next
  case (Some p)
  obtain c b where p: "p = (c, b)" by (cases p)
  from candidate_best [of s] Some p have "lowestInZone s c"
    by (auto simp: bestIn_def lowestInZone_def)
  then show ?thesis ..
qed

lemma no_zone_candidate:
  assumes "\<forall>t \<in> set (tiles s). \<not> inHitZone (height s - hitZoneHeight) (height s) t"
  shows "candidate s = None"
proof (cases "candidate s")
  case None
  then show ?thesis .
next
  case (Some p)
  obtain c b where p: "p = (c, b)" by (cases p)
  from candidate_best [of s] Some p
  have "c < length (tiles s) \<and> inHitZone (height s - hitZoneHeight) (height s) (tiles s ! c)"
    by (auto simp: bestIn_def)
  with assms show ?thesis by (metis nth_mem)
qed

lemma keyHit_eq:
  "keyHit c s = s\<lparr>tiles := take c (tiles s) @ drop (Suc c) (tiles s),
       score := score s + 1,
       signals := signals s @ [HitSound],
       tileSpeed := tileSpeed s * (1002 / 1000),
       spawnInterval := (if spawnInterval s > 380 then spawnInterval s * (998 / 1000)
                         else spawnInterval s)\<rparr>"
  by (simp add: keyHit_def Let_def splice1_def)

text \<open>
  Claim C4, as stated: a key hit multiplies the spawn interval by 0.998 with a floor of
  380 ms. The interval 380.5 is above the threshold, is multiplied, and becomes 379.739.
\<close>

theorem C4_floor_counterexample:
  "running sK \<and> candidate sK = Some (0, 532) \<and> spawnInterval sK = 761 / 2
   \<and> spawnInterval (keydown spaceKey sK) = 379739 / 1000
   \<and> spawnInterval (keydown spaceKey sK) < 380"
proof -
  have c: "candidate sK = Some (0, 532)"
    by (simp add: candidate_def sK_def fresh_simps hitStep_def inHitZone_def
        hitZoneHeight_def)
  have run: "running sK" by (simp add: sK_def fresh_simps)
  have "spawnInterval (keydown spaceKey sK) = 379739 / 1000"
    using run c by (simp add: keydown_def spaceKey_def keyHit_eq) (simp add: sK_def)
  with run c show ?thesis by (simp add: sK_def)
qed

text \<open>
  Claim C4, amended. While the game runs, Space or ArrowDown looks at exactly the tiles
  with \<open>y + h \<ge> height - 90\<close> and \<open>y \<le> height\<close>. If there is one, the handler
  removes the tile with the greatest \<open>y + h\<close> among them, the first in insertion order
  on a tie, adds one to the score, multiplies the base fall speed by 1.002 and, only when
  the spawn interval is above 380 ms, multiplies the interval by 0.998; an interval of
  at most 380 ms is left unchanged, so that the result can lie below 380 ms. If there is
  none, the handler applies the miss penalty: one life less, the alarm timer set to
  0.22 s, the miss sound, the fall speed times 1.06, the spawn interval times 0.92 when it
  is above 280 ms, and the end of the run when no life is left.
\<close>

theorem C4_key_hit_lowest_in_zone:
  assumes "running s" and "code e = ''Space'' \<or> key e = ''ArrowDown''"
  shows "(\<forall>c. lowestInZone s c \<longrightarrow>
            keydown e s = s\<lparr>tiles := take c (tiles s) @ drop (Suc c) (tiles s),
               score := score s + 1,
               signals := signals s @ [HitSound],
               tileSpeed := tileSpeed s * (1002 / 1000),
               spawnInterval := (if spawnInterval s > 380
                                 then spawnInterval s * (998 / 1000)
                                 else spawnInterval s)\<rparr>)
    \<and> ((\<exists>t \<in> set (tiles s). inHitZone (height s - hitZoneHeight) (height s) t)
          \<longrightarrow> (\<exists>c. lowestInZone s c))
    \<and> ((\<forall>t \<in> set (tiles s). \<not> inHitZone (height s - hitZoneHeight) (height s) t)
          \<longrightarrow> keydown e s = s\<lparr>lives := lives s - 1,
             flashTime := 22 / 100,
             signals := signals s @ MissSound #
                (if lives s \<le> 1 then [GameOver (score s)] else []),
             tileSpeed := tileSpeed s * (106 / 100),
             spawnInterval := (if 280 < spawnInterval s then spawnInterval s * (92 / 100)
                               else spawnInterval s),
             running := 1 < lives s\<rparr>)"
proof (intro conjI allI impI)
  fix c
  assume "lowestInZone s c"
  from lowestInZone_candidate [OF this] assms
  show "keydown e s = s\<lparr>tiles := take c (tiles s) @ drop (Suc c) (tiles s),
      score := score s + 1, signals := signals s @ [HitSound],
      tileSpeed := tileSpeed s * (1002 / 1000),
      spawnInterval := (if spawnInterval s > 380 then spawnInterval s * (998 / 1000)
                        else spawnInterval s)\<rparr>"
    by (simp add: keydown_def keyHit_eq)
next
  assume "\<exists>t \<in> set (tiles s). inHitZone (height s - hitZoneHeight) (height s) t"
  then show "\<exists>c. lowestInZone s c" by (rule in_zone_candidate)
next
  assume "\<forall>t \<in> set (tiles s). \<not> inHitZone (height s - hitZoneHeight) (height s) t"
  from no_zone_candidate [OF this] assms have "keydown e s = penalizeMiss s"
    by (simp add: keydown_def)
  with assms(1) show "keydown e s = s\<lparr>lives := lives s - 1,
             flashTime := 22 / 100,
             signals := signals s @ MissSound #
                (if lives s \<le> 1 then [GameOver (score s)] else []),
             tileSpeed := tileSpeed s * (106 / 100),
             spawnInterval := (if 280 < spawnInterval s then spawnInterval s * (92 / 100)
                               else spawnInterval s),
             running := 1 < lives s\<rparr>"
    by (simp add: penalizeMiss_eq)
qed

theorem C4_key_hit_witness:
  "running sZ \<and> tiles sZ = [tileU, tileV, tileW]
   \<and> \<not> inHitZone 510 600 tileU \<and> inHitZone 510 600 tileV \<and> inHitZone 510 600 tileW
   \<and> y tileV + h tileV = y tileW + h tileW
   \<and> keydown spaceKey sZ = sZ\<lparr>tiles := [tileU, tileW], score := 1,
        signals := signals sZ @ [HitSound], tileSpeed := 11022 / 100,
        spawnInterval := 8982 / 10\<rparr>
   \<and> (\<exists>c. lowestInZone sZ c)
   \<and> keydown spaceKey fresh = fresh\<lparr>lives := 2, flashTime := 22 / 100,
        signals := [RequestFrame, MissSound], tileSpeed := 1166 / 10,
        spawnInterval := 828, running := True\<rparr>
   \<and> keydown spaceKey sL = sL\<lparr>lives := 0, flashTime := 22 / 100,
        signals := [RequestFrame, MissSound, GameOver 0], tileSpeed := 1166 / 10,
        spawnInterval := 828, running := False\<rparr>"
proof -
  have run: "running sZ" "running fresh" "running sL"
    and ts: "tiles sZ = [tileU, tileV, tileW]"
    by (simp_all add: sZ_def sL_def sD_def fresh_simps)
  have k: "code spaceKey = ''Space'' \<or> key spaceKey = ''ArrowDown''"
    by (simp add: spaceKey_def)
  have z: "\<not> inHitZone 510 600 tileU" "inHitZone 510 600 tileV" "inHitZone 510 600 tileW"
    "y tileV + h tileV = y tileW + h tileW"
    by (simp_all add: inHitZone_def tileU_def tileV_def tileW_def)
  have low: "lowestInZone sZ 1"
    by (simp add: lowestInZone_def bestIn_def ts less_Suc_eq sZ_def fresh_simps
        hitZoneHeight_def inHitZone_def tileU_def tileV_def tileW_def)
  have none: "\<forall>t \<in> set (tiles fresh).
      \<not> inHitZone (height fresh - hitZoneHeight) (height fresh) t"
    by (simp add: fresh_simps)
  have noneL: "\<forall>t \<in> set (tiles sL).
      \<not> inHitZone (height sL - hitZoneHeight) (height sL) t"
    by (simp add: sL_def sD_def fresh_simps inHitZone_def hitZoneHeight_def
        tileA_def tileB_def)
  from C4_key_hit_lowest_in_zone [OF run(1) k] low
  have "keydown spaceKey sZ = sZ\<lparr>tiles := take 1 (tiles sZ) @ drop (Suc 1) (tiles sZ),
      score := score sZ + 1, signals := signals sZ @ [HitSound],
      tileSpeed := tileSpeed sZ * (1002 / 1000),
      spawnInterval := (if spawnInterval sZ > 380 then spawnInterval sZ * (998 / 1000)
                        else spawnInterval sZ)\<rparr>"
    by blast
  then have hit: "keydown spaceKey sZ = sZ\<lparr>tiles := [tileU, tileW], score := 1,
      signals := signals sZ @ [HitSound], tileSpeed := 11022 / 100,
      spawnInterval := 8982 / 10\<rparr>"
    by (simp add: ts) (simp add: sZ_def fresh_simps)
  have "\<exists>t \<in> set (tiles sZ). inHitZone (height sZ - hitZoneHeight) (height sZ) t"
    using z(2) by (simp add: ts) (simp add: sZ_def fresh_simps hitZoneHeight_def)
  with C4_key_hit_lowest_in_zone [OF run(1) k]
  have ex: "\<exists>c. lowestInZone sZ c" by blast
  from C4_key_hit_lowest_in_zone [OF run(2) k] none
  have "keydown spaceKey fresh = fresh\<lparr>lives := lives fresh - 1, flashTime := 22 / 100,
      signals := signals fresh @ MissSound #
        (if lives fresh \<le> 1 then [GameOver (score fresh)] else []),
      tileSpeed := tileSpeed fresh * (106 / 100),
      spawnInterval := (if 280 < spawnInterval fresh then spawnInterval fresh * (92 / 100)
                        else spawnInterval fresh),
      running := 1 < lives fresh\<rparr>"
    by blast
  then have miss: "keydown spaceKey fresh = fresh\<lparr>lives := 2, flashTime := 22 / 100,
      signals := [RequestFrame, MissSound], tileSpeed := 1166 / 10,
      spawnInterval := 828, running := True\<rparr>"
    by (simp add: fresh_simps)
  from C4_key_hit_lowest_in_zone [OF run(3) k] noneL
  have "keydown spaceKey sL = sL\<lparr>lives := lives sL - 1, flashTime := 22 / 100,
      signals := signals sL @ MissSound #
        (if lives sL \<le> 1 then [GameOver (score sL)] else []),
      tileSpeed := tileSpeed sL * (106 / 100),
      spawnInterval := (if 280 < spawnInterval sL then spawnInterval sL * (92 / 100)
                        else spawnInterval sL),
      running := 1 < lives sL\<rparr>"
    by blast
  then have last: "keydown spaceKey sL = sL\<lparr>lives := 0, flashTime := 22 / 100,
      signals := [RequestFrame, MissSound, GameOver 0], tileSpeed := 1166 / 10,
      spawnInterval := 828, running := False\<rparr>"
    by (simp add: sL_def sD_def fresh_simps)
  from run(1) ts z hit ex miss last show ?thesis by blast
qed

subsection \<open>Starting while a run is in progress\<close>




subsection \<open>Elapsed time of a frame\<close>

lemma gameLoop_tiles:
  "running s \<Longrightarrow> tiles (gameLoop ts r s) =
     filter (\<lambda>t. \<not> crossed (height s) t)
       (map (\<lambda>t. tile_update t (frameDt s ts))
          (tiles (spawnStep (frameDt s ts) r (s\<lparr>lastTime := ts\<rparr>))))"
  by (simp add: gameLoop_def Let_def update_def updateLoop_tiles spawnStep_frame)

text \<open>
  Claim C8, as stated: the elapsed time handed to \<open>update\<close> is never negative. There is
  no clamp: after a frame at 2000 ms a frame with the timestamp 1000 ms has
  \<open>dt = -1\<close>, and the tile at \<open>y = 200\<close> with speed 110 moves up to \<open>y = 90\<close>.
\<close>

theorem C8_negative_dt_counterexample:
  "running sT \<and> lastTime sT = 2000 \<and> frameDt sT 1000 = - 1
   \<and> map y (tiles sT) = [200]
   \<and> map y (tiles (gameLoop 1000 rnd0 sT)) = [90]"
proof -
  have run: "running sT" and lt: "lastTime sT = 2000"
    by (simp_all add: sT_def fresh_simps)
  have dt: "frameDt sT 1000 = - 1" by (simp add: frameDt_def lt)
  have "map y (tiles (gameLoop 1000 rnd0 sT)) = [90]"
    by (simp add: gameLoop_tiles run dt)
      (simp add: sT_def fresh_simps spawnStep_def Let_def crossed_def tile_update_def)
  with run lt dt show ?thesis by (simp add: sT_def)
qed

lemma settings_interval: "650 \<le> s_spawnInterval (difficultySettings m)"
  by (simp add: difficultySettings_def easy_def normal_def hard_def)

lemma spawnStep_tiles_subset:
  "set (tiles (spawnStep dt r (s\<lparr>lastTime := ts\<rparr>))) \<subseteq> set (tiles s) \<union> {newTile s r}"
  by (auto simp: spawnStep_def spawnTile_def newTile_def Let_def)

text \<open>
  Claim C8, amended. A frame of a running game calls \<open>update\<close> with \<open>dt\<close> equal to
  the difference between its timestamp and the previous one, divided by 1000, and with
  \<open>dt = 0\<close> when there is no previous one; nothing clamps it. Every tile left after
  the frame is a tile of before (or the one just spawned) with \<open>speed * dt\<close> added to
  its \<open>y\<close>. The first frame after \<open>startGame\<close> changes nothing but the frame clock.
  When the timestamp is not smaller than the previous one, \<open>dt\<close> is not negative and
  no tile of non-negative speed moves upward. When it is smaller, \<open>dt\<close> is negative and
  every tile of positive speed moves upward.
\<close>

theorem C8_frame_dt:
  assumes "running s" and "dt = (if lastTime s = 0 then 0 else (ts - lastTime s) / 1000)"
  shows "gameLoop ts r s =
      (let s1 = update dt r (s\<lparr>lastTime := ts\<rparr>)
       in s1\<lparr>flashTime := (if 0 < flashTime s1 then max 0 (flashTime s1 - dt)
                            else flashTime s1),
             signals := signals s1 @ [RequestFrame]\<rparr>)
    \<and> tiles (gameLoop ts r s) =
        filter (\<lambda>t. \<not> height s < y t)
          (map (\<lambda>t. t\<lparr>y := y t + speed t * dt\<rparr>)
             (tiles (spawnStep dt r (s\<lparr>lastTime := ts\<rparr>))))
    \<and> gameLoop ts r (startGame s) =
        (startGame s)\<lparr>lastTime := ts, signals := signals (startGame s) @ [RequestFrame]\<rparr>
    \<and> (lastTime s = 0 \<or> lastTime s \<le> ts \<longrightarrow>
         0 \<le> dt
         \<and> (\<forall>u \<in> set (tiles (gameLoop ts r s)). \<exists>t \<in> set (tiles s) \<union> {newTile s r}.
               u = t\<lparr>y := y t + speed t * dt\<rparr> \<and> (0 \<le> speed t \<longrightarrow> y t \<le> y u)))
    \<and> (lastTime s \<noteq> 0 \<and> ts < lastTime s \<longrightarrow>
         dt < 0
         \<and> (\<forall>u \<in> set (tiles (gameLoop ts r s)). \<exists>t \<in> set (tiles s) \<union> {newTile s r}.
               u = t\<lparr>y := y t + speed t * dt\<rparr> \<and> (0 < speed t \<longrightarrow> y u < y t)))"
proof -
  have fd: "frameDt s ts = dt"
    using assms(2) by (simp add: frameDt_def)
  have G: "gameLoop ts r s =
      (let s1 = update dt r (s\<lparr>lastTime := ts\<rparr>)
       in s1\<lparr>flashTime := (if 0 < flashTime s1 then max 0 (flashTime s1 - dt)
                            else flashTime s1),
             signals := signals s1 @ [RequestFrame]\<rparr>)"
    using assms(1) by (simp add: gameLoop_def fd Let_def)
  have T: "tiles (gameLoop ts r s) =
        filter (\<lambda>t. \<not> height s < y t)
          (map (\<lambda>t. t\<lparr>y := y t + speed t * dt\<rparr>)
             (tiles (spawnStep dt r (s\<lparr>lastTime := ts\<rparr>))))"
    using gameLoop_tiles [OF assms(1), of ts r]
    by (simp add: fd crossed_def tile_update_def)
  have src: "\<exists>t \<in> set (tiles s) \<union> {newTile s r}. u = t\<lparr>y := y t + speed t * dt\<rparr>"
    if "u \<in> set (tiles (gameLoop ts r s))" for u
  proof -
    from that obtain t where t: "t \<in> set (tiles (spawnStep dt r (s\<lparr>lastTime := ts\<rparr>)))"
      and u: "u = t\<lparr>y := y t + speed t * dt\<rparr>"
      unfolding T by auto
    from t spawnStep_tiles_subset
    have "t \<in> set (tiles s) \<union> {newTile s r}" by blast
    with u show ?thesis by blast
  qed
  have F: "gameLoop ts r (startGame s) =
      (startGame s)\<lparr>lastTime := ts, signals := signals (startGame s) @ [RequestFrame]\<rparr>"
  proof -
    let ?g = "startGame s"
    have g: "running ?g" "lastTime ?g = 0" "tiles ?g = []" "lastSpawn ?g = 0"
      "spawnInterval ?g = s_spawnInterval (difficultySettings (difficulty s))"
      by (simp_all add: startGame_def applyDifficulty_def Let_def)
    have pos: "0 < spawnInterval ?g"
      using settings_interval [of "difficulty s"] by (simp add: g(5))
    have sp: "spawnStep 0 r (?g\<lparr>lastTime := ts\<rparr>) = ?g\<lparr>lastTime := ts\<rparr>"
      using pos by (simp add: spawnStep_def Let_def g)
    have up: "update 0 r (?g\<lparr>lastTime := ts\<rparr>) = ?g\<lparr>lastTime := ts\<rparr>"
      by (simp add: update_def Let_def sp g)
    have fz: "frameDt ?g ts = 0" by (simp add: frameDt_def g)
    show ?thesis
      by (cases "0 < flashTime ?g") (simp_all add: gameLoop_def Let_def g(1) fz up)
  qed
  have M: "0 \<le> dt
      \<and> (\<forall>u \<in> set (tiles (gameLoop ts r s)). \<exists>t \<in> set (tiles s) \<union> {newTile s r}.
            u = t\<lparr>y := y t + speed t * dt\<rparr> \<and> (0 \<le> speed t \<longrightarrow> y t \<le> y u))"
    if "lastTime s = 0 \<or> lastTime s \<le> ts"
  proof -
    from that have d: "0 \<le> dt" by (auto simp: assms(2))
    show ?thesis
    proof (intro conjI ballI)
      show "0 \<le> dt" by (rule d)
    next
      fix u assume "u \<in> set (tiles (gameLoop ts r s))"
      from src [OF this] obtain t where t: "t \<in> set (tiles s) \<union> {newTile s r}"
        and u: "u = t\<lparr>y := y t + speed t * dt\<rparr>" by blast
      from u d have "0 \<le> speed t \<longrightarrow> y t \<le> y u" by simp
      with t u show "\<exists>t \<in> set (tiles s) \<union> {newTile s r}.
          u = t\<lparr>y := y t + speed t * dt\<rparr> \<and> (0 \<le> speed t \<longrightarrow> y t \<le> y u)"
        by blast
    qed
  qed
  have N: "dt < 0
      \<and> (\<forall>u \<in> set (tiles (gameLoop ts r s)). \<exists>t \<in> set (tiles s) \<union> {newTile s r}.
            u = t\<lparr>y := y t + speed t * dt\<rparr> \<and> (0 < speed t \<longrightarrow> y u < y t))"
    if "lastTime s \<noteq> 0 \<and> ts < lastTime s"
  proof -
    from that have d: "dt < 0" by (simp add: assms(2))
    show ?thesis
    proof (intro conjI ballI)
      show "dt < 0" by (rule d)
    next
      fix u assume "u \<in> set (tiles (gameLoop ts r s))"
      from src [OF this] obtain t where t: "t \<in> set (tiles s) \<union> {newTile s r}"
        and u: "u = t\<lparr>y := y t + speed t * dt\<rparr>" by blast
      from u d have "0 < speed t \<longrightarrow> y u < y t"
        by (simp add: mult_pos_neg)
      with t u show "\<exists>t \<in> set (tiles s) \<union> {newTile s r}.
          u = t\<lparr>y := y t + speed t * dt\<rparr> \<and> (0 < speed t \<longrightarrow> y u < y t)"
        by blast
    qed
  qed
  from G T F M N show ?thesis by blast
qed

theorem C8_frame_dt_witness:
  "running sT \<and> lastTime sT = 2000
   \<and> tiles (gameLoop 2016 rnd0 sT) = [\<lparr>x = 100, y = 20176 / 100, w = 64, h = 32, speed = 110\<rparr>]
   \<and> tiles (gameLoop 1000 rnd0 sT) = [\<lparr>x = 100, y = 90, w = 64, h = 32, speed = 110\<rparr>]
   \<and> gameLoop 5000 rnd0 (startGame sT) =
       (startGame sT)\<lparr>lastTime := 5000, signals := [RequestFrame, RequestFrame, RequestFrame]\<rparr>"
proof -
  have run: "running sT" and lt: "lastTime sT = 2000"
    by (simp_all add: sT_def fresh_simps)
  have d1: "16 / 1000 = (if lastTime sT = 0 then 0 else (2016 - lastTime sT) / 1000)"
    by (simp add: lt)
  have d2: "- 1 = (if lastTime sT = 0 then 0 else (1000 - lastTime sT) / 1000)"
    by (simp add: lt)
  have sp: "tiles (spawnStep dt rnd0 (sT\<lparr>lastTime := ts\<rparr>)) =
      [\<lparr>x = 100, y = 200, w = 64, h = 32, speed = 110\<rparr>]" if "dt * 1000 \<le> 900" for dt ts
    using that by (simp add: spawnStep_def Let_def sT_def fresh_simps)
  from C8_frame_dt [OF run d1, of rnd0]
  have "tiles (gameLoop 2016 rnd0 sT) =
        filter (\<lambda>t. \<not> height sT < y t)
          (map (\<lambda>t. t\<lparr>y := y t + speed t * (16 / 1000)\<rparr>)
             (tiles (spawnStep (16 / 1000) rnd0 (sT\<lparr>lastTime := 2016\<rparr>))))"
    by blast
  then have a: "tiles (gameLoop 2016 rnd0 sT) =
      [\<lparr>x = 100, y = 20176 / 100, w = 64, h = 32, speed = 110\<rparr>]"
    by (simp add: sp) (simp add: sT_def fresh_simps)
  from C8_frame_dt [OF run d2, of rnd0]
  have "tiles (gameLoop 1000 rnd0 sT) =
        filter (\<lambda>t. \<not> height sT < y t)
          (map (\<lambda>t. t\<lparr>y := y t + speed t * (- 1)\<rparr>)
             (tiles (spawnStep (- 1) rnd0 (sT\<lparr>lastTime := 1000\<rparr>))))"
    by blast
  then have b: "tiles (gameLoop 1000 rnd0 sT) =
      [\<lparr>x = 100, y = 90, w = 64, h = 32, speed = 110\<rparr>]"
    by (simp add: sp) (simp add: sT_def fresh_simps)
  have d3: "3 = (if lastTime sT = 0 then 0 else (5000 - lastTime sT) / 1000)"
    by (simp add: lt)
  from C8_frame_dt [OF run d3, of rnd0]
  have "gameLoop 5000 rnd0 (startGame sT) =
      (startGame sT)\<lparr>lastTime := 5000, signals := signals (startGame sT) @ [RequestFrame]\<rparr>"
    by blast
  then have c: "gameLoop 5000 rnd0 (startGame sT) =
      (startGame sT)\<lparr>lastTime := 5000, signals := [RequestFrame, RequestFrame, RequestFrame]\<rparr>"
    by (simp add: startGame_def applyDifficulty_def Let_def sT_def fresh_simps)
  from run lt a b c show ?thesis by blast
qed

subsection \<open>Lives and the running flag\<close>

lemma settings_lives: "2 \<le> s_lives (difficultySettings m)"
  by (simp add: difficultySettings_def easy_def normal_def hard_def)

lemma startGame_lives: "running (startGame s) \<and> 2 \<le> lives (startGame s)"
  using settings_lives [of "difficulty s"]
  by (simp add: startGame_def applyDifficulty_def Let_def)

lemma updateTileAt_inv:
  "(running s \<longrightarrow> 1 \<le> lives s) \<Longrightarrow>
   (running (updateTileAt i dt s) \<longrightarrow> 1 \<le> lives (updateTileAt i dt s))"
  by (auto simp: updateTileAt_def endGame_def Let_def)

lemma updateLoop_inv:
  "(running s \<longrightarrow> 1 \<le> lives s) \<Longrightarrow>
   (running (updateLoop i dt s) \<longrightarrow> 1 \<le> lives (updateLoop i dt s))"
proof (induction i arbitrary: s)
  case 0
  then show ?case by simp
next
  case (Suc i)
  from updateTileAt_inv [OF Suc.prems]
  have "running (updateTileAt i dt s) \<longrightarrow> 1 \<le> lives (updateTileAt i dt s)" .
  from Suc.IH [OF this] show ?case by simp
qed

lemma gameLoop_inv:
  assumes "running s \<longrightarrow> 1 \<le> lives s"
  shows "running (gameLoop ts r s) \<longrightarrow> 1 \<le> lives (gameLoop ts r s)"
proof (cases "running s")
  case False
  then show ?thesis by (simp add: gameLoop_def)
next
  case True
  let ?s1 = "spawnStep (frameDt s ts) r (s\<lparr>lastTime := ts\<rparr>)"
  have "running ?s1 \<longrightarrow> 1 \<le> lives ?s1"
    using assms by (simp add: spawnStep_def spawnTile_def Let_def)
  from updateLoop_inv [OF this]
  have "running (update (frameDt s ts) r (s\<lparr>lastTime := ts\<rparr>))
      \<longrightarrow> 1 \<le> lives (update (frameDt s ts) r (s\<lparr>lastTime := ts\<rparr>))"
    by (simp add: update_def Let_def)
  with True show ?thesis by (simp add: gameLoop_def Let_def)
qed

lemma penalizeMiss_inv:
  "running (penalizeMiss s) \<longrightarrow> 1 \<le> lives (penalizeMiss s)"
  by (auto simp: penalizeMiss_def endGame_def Let_def)

lemma click_inv:
  "(running s \<longrightarrow> 1 \<le> lives s) \<Longrightarrow>
   (running (click px py s) \<longrightarrow> 1 \<le> lives (click px py s))"
  using penalizeMiss_inv [of s]
  by (auto simp: click_def split: option.splits)

lemma keydown_inv:
  "(running s \<longrightarrow> 1 \<le> lives s) \<Longrightarrow>
   (running (keydown e s) \<longrightarrow> 1 \<le> lives (keydown e s))"
  using penalizeMiss_inv [of s] startGame_lives [of s]
  by (auto simp: keydown_def keyHit_def Let_def split: option.splits)

text \<open>
  In every reachable state a running game has at least one life: when \<open>lives\<close> is zero
  or less, \<open>running\<close> is false.
\<close>

lemma reachable_running_lives:
  "reachable s \<Longrightarrow> running s \<longrightarrow> 1 \<le> lives s"
proof (induction rule: reachable.induct)
  case r_init
  from startGame_lives [of initial] show ?case by simp
next
  case (r_frame s r ts)
  then show ?case by (intro gameLoop_inv)
next
  case (r_click s px py)
  then show ?case by (intro click_inv)
next
  case (r_key s e)
  then show ?case by (intro keydown_inv)
next
  case (r_restart s chosen)
  show ?case
    using startGame_lives [of "applyDifficulty (if chosen \<noteq> [] then chosen else difficulty s)
        True (s\<lparr>difficulty := if chosen \<noteq> [] then chosen else difficulty s\<rparr>)"]
    by (simp add: restart_def Let_def)
qed

lemma rnd0_ok: "rnd_ok rnd0"
  by (simp add: rnd_ok_def rnd0_def)

lemma newTile_rnd0:
  "width s = 800 \<Longrightarrow> difficulty s = ''normal'' \<Longrightarrow> tileSpeed s = 110 \<Longrightarrow>
   newTile s rnd0 = tile0 (- 42)"
  by (simp add: newTile_def Let_def Tile_def tile0_def difficultySettings_def normal_def
      rnd0_def js_round_def)

lemma fresh_eq: "fresh = runState [] 0 3 True [RequestFrame]"
  by (simp add: runState_def fresh_def startGame_def initial_def applyDifficulty_def
      difficultySettings_def normal_def Let_def)

lemma runState_simps:
  "width (runState ts lt lv rn sg) = 800"
  "difficulty (runState ts lt lv rn sg) = ''normal''"
  "tileSpeed (runState ts lt lv rn sg) = 110"
  "tiles (runState ts lt lv rn sg) = ts"
  by (simp_all add: runState_def)

lemma updateTileAt_keep:
  "\<not> y (ts ! i) + speed (ts ! i) * dt > 600 \<Longrightarrow>
   updateTileAt i dt (runState ts lt lv rn sg) =
     runState (ts[i := tile_update (ts ! i) dt]) lt lv rn sg"
  by (simp add: updateTileAt_def runState_def Let_def tile_update_def)

lemma updateTileAt_drop:
  "y (ts ! i) + speed (ts ! i) * dt > 600 \<Longrightarrow>
   updateTileAt i dt (runState ts lt lv rn sg) =
     runState (splice1 i (ts[i := tile_update (ts ! i) dt])) lt (lv - 1)
       (rn \<and> 1 < lv) (sg @ MissSound # (if lv \<le> 1 then [GameOver 0] else []))"
  by (simp add: updateTileAt_def runState_def Let_def tile_update_def endGame_def)

lemma gameLoop_first:
  "gameLoop t rnd0 (runState [] 0 lv True sg) = runState [] t lv True (sg @ [RequestFrame])"
  by (simp add: gameLoop_def frameDt_def update_def spawnStep_def Let_def runState_def)

lemma gameLoop_late:
  assumes "lt \<noteq> 0" and "900 < t - lt"
  shows "gameLoop t rnd0 (runState ts lt lv True sg) =
     (updateLoop (Suc (length ts)) ((t - lt) / 1000)
        (runState (ts @ [tile0 (- 42)]) t lv True sg))
     \<lparr>signals := signals (updateLoop (Suc (length ts)) ((t - lt) / 1000)
        (runState (ts @ [tile0 (- 42)]) t lv True sg)) @ [RequestFrame]\<rparr>"
proof -
  let ?s = "(runState ts lt lv True sg)\<lparr>lastTime := t\<rparr>"
  have nt: "newTile (?s\<lparr>lastSpawn := 0\<rparr>) rnd0 = tile0 (- 42)"
    by (rule newTile_rnd0) (simp_all add: runState_def)
  have sp: "spawnStep ((t - lt) / 1000) rnd0 ?s = runState (ts @ [tile0 (- 42)]) t lv True sg"
    using assms(2) nt by (simp add: spawnStep_def spawnTile_def Let_def runState_def)
  have fl: "flashTime (updateLoop n dt (runState ts' lt' lv' rn' sg')) = 0" for n dt ts' lt' lv' rn' sg'
    by (simp add: updateLoop_frame runState_def del: updateLoop.simps)
  have dt: "frameDt (runState ts lt lv True sg) t = (t - lt) / 1000"
    using assms(1) by (simp add: frameDt_def runState_def)
  have rn: "running (runState ts lt lv True sg)" by (simp add: runState_def)
  show ?thesis
    unfolding gameLoop_def update_def Let_def dt sp
    by (simp add: rn fl runState_simps del: updateLoop.simps)
qed

lemma run1_eq: "run1 = runState [] 1000 3 True [RequestFrame, RequestFrame]"
  by (simp add: run1_def fresh_eq gameLoop_first)

lemma run2_eq:
  "run2 = runState [tile0 (125 / 2)] 2000 3 True [RequestFrame, RequestFrame, RequestFrame]"
proof -
  have "updateLoop (Suc 0) 1 (runState [tile0 (- 42)] 2000 3 True [RequestFrame, RequestFrame])
      = runState [tile0 (125 / 2)] 2000 3 True [RequestFrame, RequestFrame]"
    by (simp add: updateTileAt_keep tile0_def tile_update_def)
  then show ?thesis
    by (simp add: run2_def run1_eq gameLoop_late) (simp add: runState_def)
qed

lemma run3_eq:
  "run3 = runState [tile0 167, tile0 (125 / 2)] 3000 3 True
     [RequestFrame, RequestFrame, RequestFrame, RequestFrame]"
proof -
  have "updateLoop (Suc (Suc 0)) 1
        (runState [tile0 (125 / 2), tile0 (- 42)] 3000 3 True
           [RequestFrame, RequestFrame, RequestFrame])
      = runState [tile0 167, tile0 (125 / 2)] 3000 3 True
           [RequestFrame, RequestFrame, RequestFrame]"
    by (simp add: updateTileAt_keep tile0_def tile_update_def)
  then show ?thesis
    by (simp add: run3_def run2_eq gameLoop_late) (simp add: runState_def)
qed

lemma run4_eq:
  "run4 = runState [tile0 (543 / 2), tile0 167, tile0 (125 / 2)] 4000 3 True
     [RequestFrame, RequestFrame, RequestFrame, RequestFrame, RequestFrame]"
proof -
  have "updateLoop (Suc (Suc (Suc 0))) 1
        (runState [tile0 167, tile0 (125 / 2), tile0 (- 42)] 4000 3 True
           [RequestFrame, RequestFrame, RequestFrame, RequestFrame])
      = runState [tile0 (543 / 2), tile0 167, tile0 (125 / 2)] 4000 3 True
           [RequestFrame, RequestFrame, RequestFrame, RequestFrame]"
    by (simp add: updateTileAt_keep tile0_def tile_update_def)
  then show ?thesis
    by (simp add: run4_def run3_eq gameLoop_late) (simp add: runState_def)
qed

lemma run5_eq:
  "run5 = runState [] 1000000 (- 1) False
     [RequestFrame, RequestFrame, RequestFrame, RequestFrame, RequestFrame,
      MissSound, MissSound, MissSound, GameOver 0, MissSound, GameOver 0, RequestFrame]"
proof -
  have "updateLoop (Suc (Suc (Suc (Suc 0)))) 996
        (runState [tile0 (543 / 2), tile0 167, tile0 (125 / 2), tile0 (- 42)] 1000000 3 True
           [RequestFrame, RequestFrame, RequestFrame, RequestFrame, RequestFrame])
      = runState [] 1000000 (- 1) False
           [RequestFrame, RequestFrame, RequestFrame, RequestFrame, RequestFrame,
            MissSound, MissSound, MissSound, GameOver 0, MissSound, GameOver 0]"
    by (simp add: updateTileAt_drop tile0_def tile_update_def splice1_def)
  then show ?thesis
    by (simp add: run5_def run4_eq gameLoop_late) (simp add: runState_def)
qed

lemma reachable_run4: "reachable run4"
proof -
  have "reachable fresh" unfolding fresh_def by (rule r_init)
  then have "reachable run1" unfolding run1_def by (rule r_frame) (rule rnd0_ok)
  then have "reachable run2" unfolding run2_def by (rule r_frame) (rule rnd0_ok)
  then have "reachable run3" unfolding run3_def by (rule r_frame) (rule rnd0_ok)
  then show "reachable run4" unfolding run4_def by (rule r_frame) (rule rnd0_ok)
qed
text \<open>
  Claim C1. Evaluation of the code on a run that \<open>init()\<close> and five frames produce.
  The first four frames spawn three tiles; the fifth comes 996 s later, spawns a fourth
  tile and moves all four below the bottom of the field. The loop of \<open>update\<close> goes on
  after the third life is gone and takes a fourth: the state reached has
  \<open>lives = -1\<close>. (That \<open>running\<close> is false whenever \<open>lives \<le> 0\<close> is
  \<open>reachable_running_lives\<close>.)
\<close>

theorem C1_lives_negative_reachable:
  "reachable run5 \<and> lives run5 = - 1 \<and> \<not> running run5 \<and> lives run4 = 3"
proof -
  have "reachable run5"
    unfolding run5_def using reachable_run4 rnd0_ok by (rule r_frame)
  then show ?thesis
    by (simp add: run5_eq run4_eq runState_def)
qed

text \<open>
  Claim C9. Evaluation of the code on the same run. Within the one call of \<open>update\<close>
  made by the fifth frame, \<open>endGame\<close> is called when the third tile takes the last
  life and again when the fourth tile is removed: the game-over signal is sent twice.
\<close>

theorem C9_game_over_signalled_twice:
  "reachable run4 \<and> running run4 \<and> lives run4 = 3 \<and> length (tiles run4) = 3
   \<and> signals (gameLoop 1000000 rnd0 run4) =
       signals run4 @ [MissSound, MissSound, MissSound, GameOver 0,
                       MissSound, GameOver 0, RequestFrame]"
proof -
  have "gameLoop 1000000 rnd0 run4 = run5" by (simp add: run5_def)
  then show ?thesis
    using reachable_run4 by (simp add: run5_eq run4_eq runState_def)
qed

end
